theory Spec2Isabelle
  imports Main "HOL-Library.Sublist"
begin

section \<open>Data model\<close>

text \<open>
  The conversation driver \<^verbatim>\<open>AIGenerator\<close> of \<^verbatim>\<open>backend/ai_generator.py\<close> talks to two
  collaborators: the model client (\<^verbatim>\<open>self.client.messages.create\<close>) and a tool manager
  (\<^verbatim>\<open>tool_manager.execute_tool\<close>). Both may return or raise. An exception is a value of
  type \<open>exn\<close>; a call that may raise returns \<open>exn + 'a\<close>, with \<open>Inl\<close> the exception.
  \<open>IndexError\<close> and \<open>AttributeError\<close> are the two exceptions that the driver's own
  expression \<^verbatim>\<open>response.content[0].text\<close> can raise; \<open>Raised msg\<close> is an exception raised
  by a collaborator.
\<close>

datatype exn = IndexError | AttributeError | Raised string

text \<open>
  A content block of a model response. A text block has the attribute \<^verbatim>\<open>text\<close>; a
  \<^verbatim>\<open>tool_use\<close> block has \<^verbatim>\<open>id\<close>, \<^verbatim>\<open>name\<close> and \<^verbatim>\<open>input\<close> and no \<^verbatim>\<open>text\<close>; any other kind of
  block has neither. The keyword arguments of a tool call are an association list.
\<close>

type_synonym tool_input = "(string \<times> string) list"

datatype content_block =
    TextBlock (block_text: string)
  | ToolUseBlock (block_id: string) (block_name: string) (block_input: tool_input)
  | OtherBlock

text \<open>The dictionary \<^verbatim>\<open>{"type": "tool_result", "tool_use_id": ..., "content": ...}\<close>.\<close>

datatype tool_result = ToolResult (tool_use_id: string) (result_content: string)

datatype role = User | Assistant

datatype message_content =
    PlainText string
  | Blocks "content_block list"
  | ToolResults "tool_result list"

text \<open>The dictionary \<^verbatim>\<open>{"role": ..., "content": ...}\<close>.\<close>

datatype message = Message (role: role) (message_content: message_content)

record response =
  content :: "content_block list"
  stop_reason :: string

text \<open>A tool schema; the driver passes it on without looking inside.\<close>

datatype tool_definition =
  ToolDefinition (tool_name: string) (description: string) (input_schema: string)

text \<open>The dictionary \<^verbatim>\<open>{"type": "auto"}\<close>.\<close>

datatype tool_choice_mode = ToolChoice (choice_type: string)

text \<open>
  The keyword arguments of one model request. The keys \<^verbatim>\<open>tools\<close> and \<^verbatim>\<open>tool_choice\<close> are
  optional: \<open>None\<close> is an absent key.
\<close>

record api_params =
  model :: string
  temperature :: int
  max_tokens :: int
  messages :: "message list"
  system :: string
  tools :: "tool_definition list option"
  tool_choice :: "tool_choice_mode option"

section \<open>The collaborators and the trace of a query\<close>

text \<open>
  The collaborators are stateful and outside the driver: each is a function of an
  external world \<open>'w\<close> that returns its outcome and the next world. The driver's state
  is that world and the log of every call the driver has made, with its outcome.
\<close>

type_synonym 'w client = "'w \<Rightarrow> api_params \<Rightarrow> (exn + response) \<times> 'w"

type_synonym 'w tool_manager = "'w \<Rightarrow> string \<Rightarrow> tool_input \<Rightarrow> (exn + string) \<times> 'w"

datatype event =
    ModelCall api_params "exn + response"
  | ToolCall string tool_input "exn + string"

record 'w state =
  world :: 'w
  log :: "event list"

definition init :: "'w \<Rightarrow> 'w state" where
  "init w = \<lparr>world = w, log = []\<rparr>"

definition messages_create ::
  "'w client \<Rightarrow> api_params \<Rightarrow> 'w state \<Rightarrow> (exn + response) \<times> 'w state" where
  "messages_create client p s =
     (case client (world s) p of
        (r, w') \<Rightarrow> (r, \<lparr>world = w', log = log s @ [ModelCall p r]\<rparr>))"

definition execute_tool ::
  "'w tool_manager \<Rightarrow> string \<Rightarrow> tool_input \<Rightarrow> 'w state \<Rightarrow> (exn + string) \<times> 'w state" where
  "execute_tool tool_manager n kwargs s =
     (case tool_manager (world s) n kwargs of
        (r, w') \<Rightarrow> (r, \<lparr>world = w', log = log s @ [ToolCall n kwargs r]\<rparr>))"

section \<open>AIGenerator\<close>

text \<open>
  Lines 8 to 34: the static system prompt. A character of the source outside ASCII is
  written as the bytes of its UTF-8 encoding.
\<close>

definition SYSTEM_PROMPT :: string where
  "SYSTEM_PROMPT =
     '' You are an AI assistant specialized in course materials and educational content with access to tools for course information.\<newline>''
     @ ''\<newline>''
     @ ''Available Tools:\<newline>''
     @ ''1. **search_course_content** - Search within course content for specific information\<newline>''
     @ ''2. **get_course_outline** - Get course structure (title, course link, lesson list with numbers and titles)\<newline>''
     @ ''\<newline>''
     @ ''Tool Selection:\<newline>''
     @ ''- **Outline queries** (course structure, lesson lists, what topics a course covers): Use get_course_outline\<newline>''
     @ ''  - For outline responses, include: course title, course link, and all lessons with their numbers and titles\<newline>''
     @ ''- **Content queries** (specific information, explanations, details within lessons): Use search_course_content\<newline>''
     @ ''- You may use multiple tools if needed to fully answer a question\<newline>''
     @ ''- If a tool yields no results, state this clearly without offering alternatives\<newline>''
     @ ''\<newline>''
     @ ''Response Protocol:\<newline>''
     @ ''- **General knowledge questions**: Answer using existing knowledge without searching\<newline>''
     @ ''- **Course-specific questions**: Use appropriate tool first, then answer\<newline>''
     @ ''- **No meta-commentary**:\<newline>''
     @ '' - Provide direct answers only '' @ [CHR 0xC3] @ [CHR 0xA2] @ [CHR 0xE2] @ [CHR 0x82] @ [CHR 0xAC] @ [CHR 0xE2] @ [CHR 0x80] @ [CHR 0x9D] @ '' no reasoning process, search explanations, or question-type analysis\<newline>''
     @ '' - Do not mention '' @ [CHR 0x22] @ ''based on the search results'' @ [CHR 0x22] @ '' or '' @ [CHR 0x22] @ ''based on the outline'' @ [CHR 0x22] @ ''\<newline>''
     @ ''\<newline>''
     @ ''All responses must be:\<newline>''
     @ ''1. **Brief, Concise and focused** - Get to the point quickly\<newline>''
     @ ''2. **Educational** - Maintain instructional value\<newline>''
     @ ''3. **Clear** - Use accessible language\<newline>''
     @ ''4. **Example-supported** - Include relevant examples when they aid understanding\<newline>''
     @ ''Provide only the direct answer to what was asked.\<newline>''"

text \<open>
  \<^verbatim>\<open>{**self.base_params, "messages": msgs, "system": sys}\<close>, where \<^verbatim>\<open>self.base_params\<close> is
  \<^verbatim>\<open>{"model": self.model, "temperature": 0, "max_tokens": 800}\<close>.
\<close>

definition with_base_params :: "string \<Rightarrow> message list \<Rightarrow> string \<Rightarrow> api_params" where
  "with_base_params self_model msgs sys =
     \<lparr>model = self_model, temperature = 0, max_tokens = 800,
      messages = msgs, system = sys, tools = None, tool_choice = None\<rparr>"

definition fallback_no_content :: string where
  "fallback_no_content =
     ''I was unable to generate a response. Please try rephrasing your question.''"

definition fallback_no_text :: string where
  "fallback_no_text = ''I was unable to generate a text response. Please try again.''"

definition max_iterations :: nat where
  "max_iterations = 3"

text \<open>
  Lines 117 to 128: the inner loop over the blocks of the current response. A tool that
  raises ends the loop with the exception.
\<close>

fun collect_tool_results ::
  "'w tool_manager \<Rightarrow> content_block list \<Rightarrow> tool_result list \<Rightarrow> 'w state
     \<Rightarrow> (exn + tool_result list) \<times> 'w state" where
  "collect_tool_results tool_manager [] tool_results s = (Inr tool_results, s)"
| "collect_tool_results tool_manager (content_block # rest) tool_results s =
     (case content_block of
        ToolUseBlock i n kwargs \<Rightarrow>
          (case execute_tool tool_manager n kwargs s of
             (Inl e, s') \<Rightarrow> (Inl e, s')
           | (Inr tool_result, s') \<Rightarrow>
               collect_tool_results tool_manager rest
                 (tool_results @ [ToolResult i tool_result]) s')
      | _ \<Rightarrow> collect_tool_results tool_manager rest tool_results s)"

text \<open>
  Lines 110 to 150: the \<^verbatim>\<open>while\<close> loop. It returns the final \<^verbatim>\<open>current_response\<close>, or the
  exception that ended it.
\<close>

function tool_loop ::
  "'w client \<Rightarrow> 'w tool_manager \<Rightarrow> string \<Rightarrow> api_params \<Rightarrow> nat \<Rightarrow> nat \<Rightarrow> message list
     \<Rightarrow> response \<Rightarrow> 'w state \<Rightarrow> (exn + response) \<times> 'w state" where
  "tool_loop client tool_manager self_model base_params max_it iteration msgs
       current_response s =
     (if iteration < max_it then
        (let msgs1 = msgs @ [Message Assistant (Blocks (content current_response))] in
         case collect_tool_results tool_manager (content current_response) [] s of
           (Inl e, s1) \<Rightarrow> (Inl e, s1)
         | (Inr tool_results, s1) \<Rightarrow>
             (let msgs2 = (if tool_results \<noteq> []
                           then msgs1 @ [Message User (ToolResults tool_results)]
                           else msgs1);
                  next_params = with_base_params self_model msgs2 (system base_params);
                  next_params' = (if tools base_params \<noteq> None
                                  then next_params\<lparr>tools := tools base_params,
                                         tool_choice := Some (ToolChoice ''auto'')\<rparr>
                                  else next_params)
              in case messages_create client next_params' s1 of
                   (Inl e, s2) \<Rightarrow> (Inl e, s2)
                 | (Inr r, s2) \<Rightarrow>
                     (if stop_reason r \<noteq> ''tool_use'' then (Inr r, s2)
                      else tool_loop client tool_manager self_model base_params max_it
                             (iteration + 1) msgs2 r s2)))
      else (Inr current_response, s))"
  by pat_completeness auto
termination
  by (relation "measure (\<lambda>(client, tool_manager, self_model, base_params, max_it,
        iteration, msgs, current_response, s). max_it - iteration)") auto

declare tool_loop.simps [simp del]

text \<open>Lines 157 to 159: the first block that has the attribute \<^verbatim>\<open>text\<close>.\<close>

fun first_text :: "content_block list \<Rightarrow> string option" where
  "first_text [] = None"
| "first_text (TextBlock t # rest) = Some t"
| "first_text (b # rest) = first_text rest"

text \<open>Lines 152 to 162.\<close>

definition extract_text :: "response \<Rightarrow> string" where
  "extract_text current_response =
     (if content current_response = [] then fallback_no_content
      else case first_text (content current_response) of
             Some t \<Rightarrow> t
           | None \<Rightarrow> fallback_no_text)"

definition handle_tool_execution ::
  "'w client \<Rightarrow> string \<Rightarrow> response \<Rightarrow> api_params \<Rightarrow> 'w tool_manager \<Rightarrow> 'w state
     \<Rightarrow> (exn + string) \<times> 'w state" where
  "handle_tool_execution client self_model initial_response base_params tool_manager s =
     (case tool_loop client tool_manager self_model base_params max_iterations 0
             (messages base_params) initial_response s of
        (Inl e, s') \<Rightarrow> (Inl e, s')
      | (Inr current_response, s') \<Rightarrow> (Inr (extract_text current_response), s'))"

text \<open>Line 91: \<^verbatim>\<open>response.content[0].text\<close>.\<close>

definition first_block_text :: "response \<Rightarrow> exn + string" where
  "first_block_text r =
     (case content r of
        [] \<Rightarrow> Inl IndexError
      | TextBlock t # _ \<Rightarrow> Inr t
      | _ # _ \<Rightarrow> Inl AttributeError)"

text \<open>
  Lines 64 to 69. A history that is \<^verbatim>\<open>None\<close> or the empty string is falsy.
\<close>

definition system_content :: "string option \<Rightarrow> string" where
  "system_content conversation_history =
     (case conversation_history of
        None \<Rightarrow> SYSTEM_PROMPT
      | Some h \<Rightarrow>
          (if h \<noteq> []
           then SYSTEM_PROMPT @ ''\<newline>\<newline>Previous conversation:\<newline>'' @ h
           else SYSTEM_PROMPT))"

text \<open>Lines 72 to 81. A tool list that is \<^verbatim>\<open>None\<close> or empty is falsy.\<close>

definition initial_params ::
  "string \<Rightarrow> string \<Rightarrow> string option \<Rightarrow> tool_definition list option \<Rightarrow> api_params" where
  "initial_params self_model query conversation_history tools_arg =
     (let api_params = with_base_params self_model [Message User (PlainText query)]
                         (system_content conversation_history)
      in case tools_arg of
           None \<Rightarrow> api_params
         | Some ts \<Rightarrow>
             (if ts \<noteq> []
              then api_params\<lparr>tools := Some ts, tool_choice := Some (ToolChoice ''auto'')\<rparr>
              else api_params))"

definition generate_response ::
  "'w client \<Rightarrow> string \<Rightarrow> string \<Rightarrow> string option \<Rightarrow> tool_definition list option
     \<Rightarrow> 'w tool_manager option \<Rightarrow> 'w state \<Rightarrow> (exn + string) \<times> 'w state" where
  "generate_response client self_model query conversation_history tools_arg tool_manager s =
     (let api_params = initial_params self_model query conversation_history tools_arg
      in case messages_create client api_params s of
           (Inl e, s1) \<Rightarrow> (Inl e, s1)
         | (Inr response, s1) \<Rightarrow>
             (case tool_manager of
                Some tm \<Rightarrow>
                  (if stop_reason response = ''tool_use''
                   then handle_tool_execution client self_model response api_params tm s1
                   else (first_block_text response, s1))
              | None \<Rightarrow> (first_block_text response, s1)))"

section \<open>ToolManager\<close>

text \<open>
  Modelled from the spec: \<^verbatim>\<open>ToolManager.execute_tool\<close> of \<^verbatim>\<open>backend/search_tools.py\<close>,
  a file that is not among the sources (only its tests are). The spec, section 4.2:
  \<^verbatim>\<open>execute(name, **kwargs) -> string\<close> looks the capability up by name; if it is
  absent, it returns the string \<^verbatim>\<open>"Tool '<name>' not found"\<close>, a handled condition and
  not a raised error; otherwise it delegates to the capability and returns its result
  verbatim. The registry is a map from tool names to capabilities.
\<close>

type_synonym 'w capability = "'w \<Rightarrow> tool_input \<Rightarrow> (exn + string) \<times> 'w"

definition not_found_message :: "string \<Rightarrow> string" where
  "not_found_message name =
     ''Tool '' @ [CHR 0x27] @ name @ [CHR 0x27] @ '' not found''"

definition manager_execute_tool :: "(string \<rightharpoonup> 'w capability) \<Rightarrow> 'w tool_manager" where
  "manager_execute_tool registry w name kwargs =
     (case registry name of
        None \<Rightarrow> (Inr (not_found_message name), w)
      | Some capability \<Rightarrow> capability w kwargs)"

section \<open>Reading a trace\<close>

text \<open>The model requests of a trace, in order, each with its outcome.\<close>

fun model_calls :: "event list \<Rightarrow> (api_params \<times> (exn + response)) list" where
  "model_calls [] = []"
| "model_calls (ModelCall p r # es) = (p, r) # model_calls es"
| "model_calls (ToolCall n kwargs r # es) = model_calls es"

text \<open>The tool executions of a trace, in order: name and keyword arguments.\<close>

fun tool_calls :: "event list \<Rightarrow> (string \<times> tool_input) list" where
  "tool_calls [] = []"
| "tool_calls (ModelCall p r # es) = tool_calls es"
| "tool_calls (ToolCall n kwargs r # es) = (n, kwargs) # tool_calls es"

text \<open>The exception a call of the trace ended with, if it raised.\<close>

fun event_error :: "event \<Rightarrow> exn option" where
  "event_error (ModelCall p (Inl e)) = Some e"
| "event_error (ModelCall p (Inr r)) = None"
| "event_error (ToolCall n kwargs (Inl e)) = Some e"
| "event_error (ToolCall n kwargs (Inr out)) = None"

text \<open>The ids of the \<^verbatim>\<open>tool_use\<close> blocks of a response, in order.\<close>

fun tool_use_ids :: "content_block list \<Rightarrow> string list" where
  "tool_use_ids [] = []"
| "tool_use_ids (ToolUseBlock i n kwargs # rest) = i # tool_use_ids rest"
| "tool_use_ids (b # rest) = tool_use_ids rest"

text \<open>The tool calls that the \<^verbatim>\<open>tool_use\<close> blocks of a response ask for, in order.\<close>

fun tool_use_calls :: "content_block list \<Rightarrow> (string \<times> tool_input) list" where
  "tool_use_calls [] = []"
| "tool_use_calls (ToolUseBlock i n kwargs # rest) = (n, kwargs) # tool_use_calls rest"
| "tool_use_calls (b # rest) = tool_use_calls rest"

text \<open>
  Names for the two values one round of the loop builds: the message history after the
  round (lines 114 and 131 to 132), and the parameters of the follow-up request (lines
  135 to 144).
\<close>

definition next_messages :: "message list \<Rightarrow> response \<Rightarrow> tool_result list \<Rightarrow> message list" where
  "next_messages msgs cur trs =
     msgs @ [Message Assistant (Blocks (content cur))]
          @ (if trs \<noteq> [] then [Message User (ToolResults trs)] else [])"

definition follow_up_params :: "string \<Rightarrow> api_params \<Rightarrow> message list \<Rightarrow> api_params" where
  "follow_up_params self_model bp msgs =
     (if tools bp \<noteq> None
      then (with_base_params self_model msgs (system bp))
             \<lparr>tools := tools bp, tool_choice := Some (ToolChoice ''auto'')\<rparr>
      else with_base_params self_model msgs (system bp))"

text \<open>
  Two consecutive model requests of a query are linked when the first one returned a
  response and the second one's messages are the first one's, then the response as one
  assistant turn, then (unless there is none) the tool results as one user turn, one
  result per \<^verbatim>\<open>tool_use\<close> block of the response, with the ids of these blocks in order.
\<close>

definition linked ::
  "api_params \<times> (exn + response) \<Rightarrow> api_params \<times> (exn + response) \<Rightarrow> bool" where
  "linked c c' \<longleftrightarrow>
     (\<exists>resp trs. snd c = Inr resp
        \<and> map tool_use_id trs = tool_use_ids (content resp)
        \<and> messages (fst c') = next_messages (messages (fst c)) resp trs)"

text \<open>
  A trace is clean when no call in it raised. A trace fits a result when either the
  result is a value and the trace is clean, or the result is an exception, the last call
  of the trace raised it, and the calls before are clean.
\<close>

definition clean :: "event list \<Rightarrow> bool" where
  "clean evs \<longleftrightarrow> (\<forall>ev \<in> set evs. event_error ev = None)"

definition fits :: "exn + 'a \<Rightarrow> event list \<Rightarrow> bool" where
  "fits res evs \<longleftrightarrow>
     (case res of
        Inr v \<Rightarrow> clean evs
      | Inl e \<Rightarrow> evs \<noteq> [] \<and> clean (butlast evs) \<and> event_error (last evs) = Some e)"

section \<open>Scripted collaborators\<close>

text \<open>
  The test doubles of \<^verbatim>\<open>backend/tests/test_ai_generator.py\<close>: a client and a tool manager
  that answer from a script (\<^verbatim>\<open>side_effect = [...]\<close>), one entry per call, and raise
  \<^verbatim>\<open>StopIteration\<close> when the script is used up. The world is the pair of what is left
  of the two scripts.
\<close>

type_synonym script = "(exn + response) list \<times> (exn + string) list"

definition mock_client :: "script client" where
  "mock_client w p =
     (case fst w of
        [] \<Rightarrow> (Inl (Raised ''StopIteration''), w)
      | r # rs \<Rightarrow> (r, (rs, snd w)))"

definition mock_tool_manager :: "script tool_manager" where
  "mock_tool_manager w n kwargs =
     (case snd w of
        [] \<Rightarrow> (Inl (Raised ''StopIteration''), w)
      | r # rs \<Rightarrow> (r, (fst w, rs)))"

text \<open>The data of the tests, and a few responses more.\<close>

definition sample_tools :: "tool_definition list" where
  "sample_tools =
     [ToolDefinition ''search_course_content'' ''Search course materials'' ''object'']"

definition tool_use_response :: response where
  "tool_use_response =
     \<lparr>content = [ToolUseBlock ''tool_123'' ''search_course_content''
                   [(''query'', ''Python basics'')]],
      stop_reason = ''tool_use''\<rparr>"

definition outline_request :: response where
  "outline_request =
     \<lparr>content = [TextBlock ''Let me look at the outline.'',
                 ToolUseBlock ''tool_456'' ''get_course_outline'' [(''course_name'', ''MCP'')]],
      stop_reason = ''tool_use''\<rparr>"

definition final_response :: response where
  "final_response =
     \<lparr>content = [TextBlock ''Based on the search, Python is great.''],
      stop_reason = ''end_turn''\<rparr>"

definition empty_response :: response where
  "empty_response = \<lparr>content = [], stop_reason = ''end_turn''\<rparr>"

definition text_only_tool_use :: response where
  "text_only_tool_use =
     \<lparr>content = [TextBlock ''I will search for that.''], stop_reason = ''tool_use''\<rparr>"

definition tool_then_text :: response where
  "tool_then_text =
     \<lparr>content = [ToolUseBlock ''tool_789'' ''search_course_content'' [(''query'', ''test'')],
                 TextBlock ''Searching the course.''],
      stop_reason = ''tool_use''\<rparr>"

definition history :: string where
  "history = ''User: Hello\<newline>Assistant: Hi there!''"

text \<open>Queries run against the scripted collaborators.\<close>

type_synonym run = "(exn + string) \<times> script state"

definition run_four_rounds :: run where
  "run_four_rounds =
     generate_response mock_client ''test-model'' ''What is Python?'' None
       (Some sample_tools) (Some mock_tool_manager)
       (init ([Inr tool_use_response, Inr tool_use_response, Inr tool_use_response,
               Inr tool_use_response, Inr final_response],
              [Inr ''r1'', Inr ''r2'', Inr ''r3'', Inr ''r4'']))"

definition run_chain :: run where
  "run_chain =
     generate_response mock_client ''test-model'' ''What does the MCP course say on Python?''
       (Some history) (Some sample_tools) (Some mock_tool_manager)
       (init ([Inr outline_request, Inr tool_use_response, Inr final_response],
              [Inr ''Lesson 1: Python'', Inr ''Search results: Python content found'']))"

definition run_tool_raises :: run where
  "run_tool_raises =
     generate_response mock_client ''test-model'' ''test'' None
       (Some sample_tools) (Some mock_tool_manager)
       (init ([Inr tool_use_response, Inr final_response],
              [Inl (Raised ''Tool execution failed'')]))"

definition run_no_tool_blocks :: run where
  "run_no_tool_blocks =
     generate_response mock_client ''test-model'' ''What is Python?'' None
       (Some sample_tools) (Some mock_tool_manager)
       (init ([Inr text_only_tool_use, Inr final_response], []))"

definition run_empty_direct :: run where
  "run_empty_direct =
     generate_response mock_client ''test-model'' ''Hello'' None
       (Some sample_tools) (Some mock_tool_manager)
       (init ([Inr empty_response], []))"

definition run_tool_use_unmanaged :: run where
  "run_tool_use_unmanaged =
     generate_response mock_client ''test-model'' ''Test query'' None
       (Some sample_tools) None
       (init ([Inr tool_then_text], []))"

definition run_outline_unmanaged :: run where
  "run_outline_unmanaged =
     generate_response mock_client ''test-model'' ''Outline of MCP?'' None
       (Some sample_tools) None
       (init ([Inr outline_request, Inr final_response], [Inr ''unused'']))"

definition run_search_unmanaged :: run where
  "run_search_unmanaged =
     generate_response mock_client ''test-model'' ''What is Python?'' None
       (Some sample_tools) None
       (init ([Inr tool_use_response, Inr final_response], [Inr ''unused'']))"

definition run_unknown_tool :: run where
  "run_unknown_tool =
     generate_response mock_client ''test-model'' ''What is Python?'' None
       (Some sample_tools) (Some (manager_execute_tool Map.empty))
       (init ([Inr tool_use_response, Inr final_response], []))"

lemmas run_simps =
  generate_response_def handle_tool_execution_def tool_loop.simps messages_create_def
  execute_tool_def mock_client_def mock_tool_manager_def init_def Let_def
  first_block_text_def extract_text_def max_iterations_def manager_execute_tool_def

section \<open>One round of the loop\<close>

lemma model_calls_append [simp]: "model_calls (xs @ ys) = model_calls xs @ model_calls ys"
  by (induction xs rule: model_calls.induct) auto

lemma tool_calls_append [simp]: "tool_calls (xs @ ys) = tool_calls xs @ tool_calls ys"
  by (induction xs rule: tool_calls.induct) auto

lemma messages_create_log:
  "messages_create client p s = (r, s') \<Longrightarrow> log s' = log s @ [ModelCall p r]"
  by (auto simp: messages_create_def split: prod.splits)

lemma execute_tool_log:
  "execute_tool tm n kwargs s = (r, s') \<Longrightarrow> log s' = log s @ [ToolCall n kwargs r]"
  by (auto simp: execute_tool_def split: prod.splits)

lemma collect_model_calls:
  "collect_tool_results tm bs acc s = (r, s') \<Longrightarrow> model_calls (log s') = model_calls (log s)"
proof (induction bs arbitrary: acc s)
  case Nil
  then show ?case by simp
next
  case (Cons b bs)
  then show ?case
    by (auto split: content_block.splits prod.splits sum.splits dest!: execute_tool_log)
qed

text \<open>
  The tool results of a response: one per \<^verbatim>\<open>tool_use\<close> block, in the order of the blocks,
  each with the id of its block and the output of the call the block asked for.
\<close>

lemma collect_ids:
  "collect_tool_results tm bs acc s = (Inr trs, s') \<Longrightarrow>
     map tool_use_id trs = map tool_use_id acc @ tool_use_ids bs"
proof (induction bs arbitrary: acc s)
  case Nil
  then show ?case by simp
next
  case (Cons b bs)
  then show ?case
    by (cases b) (auto split: prod.splits sum.splits)
qed

lemma collect_outputs:
  "collect_tool_results tm bs acc s = (Inr trs, s') \<Longrightarrow>
     \<exists>outs. length outs = length (tool_use_ids bs)
       \<and> trs = acc @ map2 ToolResult (tool_use_ids bs) outs
       \<and> log s' = log s @ map2 (\<lambda>(n, kwargs) out. ToolCall n kwargs (Inr out))
                              (tool_use_calls bs) outs"
proof (induction bs arbitrary: acc s)
  case Nil
  then show ?case by simp
next
  case (Cons b bs)
  show ?case
  proof (cases b)
    case (ToolUseBlock i n kwargs)
    obtain r s1 where ex: "execute_tool tm n kwargs s = (r, s1)"
      by (cases "execute_tool tm n kwargs s")
    then have l1: "log s1 = log s @ [ToolCall n kwargs r]"
      by (rule execute_tool_log)
    show ?thesis
    proof (cases r)
      case (Inl e)
      with Cons.prems ToolUseBlock ex show ?thesis by simp
    next
      case (Inr out)
      with Cons.prems ToolUseBlock ex
      have "collect_tool_results tm bs (acc @ [ToolResult i out]) s1 = (Inr trs, s')" by simp
      from Cons.IH [OF this] obtain outs
        where o: "length outs = length (tool_use_ids bs)"
          "trs = (acc @ [ToolResult i out]) @ map2 ToolResult (tool_use_ids bs) outs"
          "log s' = log s1 @ map2 (\<lambda>(n, kwargs) out. ToolCall n kwargs (Inr out))
                               (tool_use_calls bs) outs"
        by blast
      with l1 Inr ToolUseBlock
      have "length (out # outs) = length (tool_use_ids (b # bs))
        \<and> trs = acc @ map2 ToolResult (tool_use_ids (b # bs)) (out # outs)
        \<and> log s' = log s @ map2 (\<lambda>(n, kwargs) out. ToolCall n kwargs (Inr out))
                               (tool_use_calls (b # bs)) (out # outs)"
        by simp
      then show ?thesis by blast
    qed
  next
    case (TextBlock t)
    with Cons show ?thesis by simp
  next
    case OtherBlock
    with Cons show ?thesis by simp
  qed
qed

text \<open>
  The five ways one call of \<open>tool_loop\<close> can go: the cap is reached; a tool raises; the
  follow-up request raises; the follow-up response ends the loop; or it asks for tools
  again and the loop goes round.
\<close>

lemma tool_loop_cases [consumes 1, case_names exit tool_raises model_raises final again]:
  assumes "tool_loop client tm self_model bp max_it it msgs cur s = (res, s')"
  obtains
    (exit) "\<not> it < max_it" "res = Inr cur" "s' = s"
  | (tool_raises) e where "it < max_it"
      "collect_tool_results tm (content cur) [] s = (Inl e, s')" "res = Inl e"
  | (model_raises) trs s1 e where "it < max_it"
      "collect_tool_results tm (content cur) [] s = (Inr trs, s1)"
      "messages_create client (follow_up_params self_model bp (next_messages msgs cur trs)) s1
         = (Inl e, s')"
      "res = Inl e"
  | (final) trs s1 r where "it < max_it"
      "collect_tool_results tm (content cur) [] s = (Inr trs, s1)"
      "messages_create client (follow_up_params self_model bp (next_messages msgs cur trs)) s1
         = (Inr r, s')"
      "stop_reason r \<noteq> ''tool_use''" "res = Inr r"
  | (again) trs s1 r s2 where "it < max_it"
      "collect_tool_results tm (content cur) [] s = (Inr trs, s1)"
      "messages_create client (follow_up_params self_model bp (next_messages msgs cur trs)) s1
         = (Inr r, s2)"
      "stop_reason r = ''tool_use''"
      "tool_loop client tm self_model bp max_it (Suc it) (next_messages msgs cur trs) r s2
         = (res, s')"
proof (cases "it < max_it")
  case False
  with assms have "res = Inr cur" "s' = s"
    by (simp_all add: tool_loop.simps [of _ _ _ _ max_it it])
  with False show ?thesis by (rule exit)
next
  case True
  obtain rc s1 where c: "collect_tool_results tm (content cur) [] s = (rc, s1)"
    by (cases "collect_tool_results tm (content cur) [] s")
  show ?thesis
  proof (cases rc)
    case (Inl e)
    with assms True c have "res = Inl e" "s1 = s'"
      by (simp_all add: tool_loop.simps [of _ _ _ _ max_it it])
    with True c Inl show ?thesis by (auto intro: tool_raises)
  next
    case (Inr trs)
    let ?p = "follow_up_params self_model bp (next_messages msgs cur trs)"
    obtain rm s2 where m: "messages_create client ?p s1 = (rm, s2)"
      by (cases "messages_create client ?p s1")
    have eq1: "(if trs \<noteq> []
                then (msgs @ [Message Assistant (Blocks (content cur))])
                       @ [Message User (ToolResults trs)]
                else msgs @ [Message Assistant (Blocks (content cur))])
               = next_messages msgs cur trs"
      by (simp add: next_messages_def)
    have eq2: "(if tools bp \<noteq> None
                then (with_base_params self_model M (system bp))
                       \<lparr>tools := tools bp, tool_choice := Some (ToolChoice ''auto'')\<rparr>
                else with_base_params self_model M (system bp))
               = follow_up_params self_model bp M" for M
      by (simp add: follow_up_params_def)
    from assms
    have step: "(case rm of Inl e \<Rightarrow> (Inl e, s2)
                 | Inr r \<Rightarrow> if stop_reason r \<noteq> ''tool_use'' then (Inr r, s2)
                     else tool_loop client tm self_model bp max_it (it + 1)
                            (next_messages msgs cur trs) r s2) = (res, s')"
      by (simp only: tool_loop.simps [of client tm self_model bp max_it it msgs cur s]
            True if_True Let_def c Inr prod.case sum.case eq1 eq2 m)
    show ?thesis
    proof (cases rm)
      case (Inl e)
      with step have "res = Inl e" "s2 = s'" by simp_all
      with True c Inr m Inl show ?thesis by (auto intro: model_raises)
    next
      case r: (Inr r)
      show ?thesis
      proof (cases "stop_reason r = ''tool_use''")
        case False
        with step r have "res = Inr r" "s2 = s'" by simp_all
        with True c Inr m r False show ?thesis by (auto intro: final)
      next
        case tu: True
        with step r have "tool_loop client tm self_model bp max_it (Suc it)
                            (next_messages msgs cur trs) r s2 = (res, s')" by simp
        with True c Inr m r tu show ?thesis by (auto intro: again)
      qed
    qed
  qed
qed

lemma tool_loop_bound:
  "tool_loop client tm self_model bp max_it it msgs cur s = (res, s') \<Longrightarrow>
     length (model_calls (log s')) \<le> length (model_calls (log s)) + (max_it - it)"
proof (induction "max_it - it" arbitrary: it msgs cur s)
  case 0
  from "0.prems" show ?case
    using "0.hyps" by (cases rule: tool_loop_cases) auto
next
  case (Suc n)
  from Suc.prems show ?case
  proof (cases rule: tool_loop_cases)
    case (again trs s1 r s2)
    from Suc.hyps(2) have "n = max_it - Suc it" by simp
    from Suc.hyps(1) [OF this again(5)] again(1-3) show ?thesis
      by (auto dest!: collect_model_calls messages_create_log)
  qed (auto dest!: collect_model_calls messages_create_log)
qed

section \<open>Exceptions end the trace\<close>

lemma clean_Nil [simp]: "clean []"
  by (simp add: clean_def)

lemma clean_append [simp]: "clean (xs @ ys) \<longleftrightarrow> clean xs \<and> clean ys"
  by (auto simp: clean_def)

lemma clean_single [simp]: "clean [ev] \<longleftrightarrow> event_error ev = None"
  by (simp add: clean_def)

lemma fits_append: "clean xs \<Longrightarrow> fits res ys \<Longrightarrow> fits res (xs @ ys)"
  by (cases res) (auto simp: fits_def butlast_append)

lemma fits_Cons: "event_error ev = None \<Longrightarrow> fits res evs \<Longrightarrow> fits res (ev # evs)"
  using fits_append [of "[ev]" res evs] by simp

lemma fits_model_call: "fits r [ModelCall p r]"
  by (cases r) (simp_all add: fits_def)

lemma collect_fits:
  "collect_tool_results tm bs acc s = (res, s') \<Longrightarrow> \<exists>ext. log s' = log s @ ext \<and> fits res ext"
proof (induction bs arbitrary: acc s)
  case Nil
  then show ?case by (auto simp: fits_def)
next
  case (Cons b bs)
  show ?case
  proof (cases b)
    case (ToolUseBlock i n kwargs)
    obtain r s1 where ex: "execute_tool tm n kwargs s = (r, s1)"
      by (cases "execute_tool tm n kwargs s")
    then have l1: "log s1 = log s @ [ToolCall n kwargs r]"
      by (rule execute_tool_log)
    show ?thesis
    proof (cases r)
      case (Inl e)
      with Cons.prems ToolUseBlock ex have "res = Inl e" "s' = s1" by simp_all
      with l1 Inl show ?thesis by (auto simp: fits_def)
    next
      case (Inr out)
      with Cons.prems ToolUseBlock ex
      have "collect_tool_results tm bs (acc @ [ToolResult i out]) s1 = (res, s')" by simp
      from Cons.IH [OF this] obtain ext where "log s' = log s1 @ ext" "fits res ext" by blast
      with l1 Inr have "log s' = log s @ (ToolCall n kwargs r # ext)"
        "fits res (ToolCall n kwargs r # ext)"
        by (auto intro: fits_Cons)
      then show ?thesis by auto
    qed
  next
    case (TextBlock t)
    with Cons show ?thesis by simp
  next
    case OtherBlock
    with Cons show ?thesis by simp
  qed
qed

lemma tool_loop_fits:
  "tool_loop client tm self_model bp max_it it msgs cur s = (res, s') \<Longrightarrow>
     \<exists>ext. log s' = log s @ ext \<and> fits res ext"
proof (induction "max_it - it" arbitrary: it msgs cur s)
  case 0
  from "0.prems" show ?case
    using "0.hyps" by (cases rule: tool_loop_cases) (auto simp: fits_def)
next
  case (Suc n)
  from Suc.prems show ?case
  proof (cases rule: tool_loop_cases)
    case exit
    then show ?thesis by (auto simp: fits_def)
  next
    case (tool_raises e)
    from collect_fits [OF tool_raises(2)] tool_raises(3) show ?thesis
      by (auto simp: fits_def)
  next
    case (model_raises trs s1 e)
    from model_raises(2) obtain ext1 where e1: "log s1 = log s @ ext1" "clean ext1"
      by (auto dest: collect_fits simp: fits_def)
    from model_raises(3) e1 have "log s' = log s @ (ext1 @ [ModelCall
        (follow_up_params self_model bp (next_messages msgs cur trs)) (Inl e)])"
      by (auto dest: messages_create_log)
    moreover from e1 model_raises(4) have "fits res (ext1 @ [ModelCall
        (follow_up_params self_model bp (next_messages msgs cur trs)) (Inl e)])"
      by (auto intro!: fits_append fits_model_call)
    ultimately show ?thesis by blast
  next
    case (final trs s1 r)
    from final(2) obtain ext1 where e1: "log s1 = log s @ ext1" "clean ext1"
      by (auto dest: collect_fits simp: fits_def)
    from final(3) e1 have "log s' = log s @ (ext1 @ [ModelCall
        (follow_up_params self_model bp (next_messages msgs cur trs)) (Inr r)])"
      by (auto dest: messages_create_log)
    moreover from e1 final(5) have "fits res (ext1 @ [ModelCall
        (follow_up_params self_model bp (next_messages msgs cur trs)) (Inr r)])"
      by (auto intro!: fits_append fits_model_call)
    ultimately show ?thesis by blast
  next
    case (again trs s1 r s2)
    from again(2) obtain ext1 where e1: "log s1 = log s @ ext1" "clean ext1"
      by (auto dest: collect_fits simp: fits_def)
    from again(3) e1 have l2: "log s2 = log s @ (ext1 @ [ModelCall
        (follow_up_params self_model bp (next_messages msgs cur trs)) (Inr r)])"
      by (auto dest: messages_create_log)
    from Suc.hyps(2) have "n = max_it - Suc it" by simp
    from Suc.hyps(1) [OF this again(5)] obtain ext2
      where e2: "log s' = log s2 @ ext2" "fits res ext2" by blast
    let ?ext = "(ext1 @ [ModelCall
        (follow_up_params self_model bp (next_messages msgs cur trs)) (Inr r)]) @ ext2"
    from l2 e2 have "log s' = log s @ ?ext" by simp
    moreover from e1 e2 have "fits res ?ext"
      by (intro fits_append) auto
    ultimately show ?thesis by blast
  qed
qed

section \<open>The requests of the loop\<close>

lemma messages_follow_up_params [simp]: "messages (follow_up_params self_model bp msgs) = msgs"
  by (simp add: follow_up_params_def with_base_params_def)

lemma successively_nth:
  "successively P xs \<Longrightarrow> Suc k < length xs \<Longrightarrow> P (xs ! k) (xs ! Suc k)"
proof (induction xs arbitrary: k)
  case Nil
  then show ?case by simp
next
  case (Cons x xs)
  show ?case
  proof (cases k)
    case 0
    with Cons.prems show ?thesis by (cases xs) auto
  next
    case (Suc j)
    with Cons.prems have "successively P xs" "Suc j < length xs"
      by (auto simp: successively_Cons)
    with Cons.IH Suc show ?thesis by simp
  qed
qed

lemma tool_loop_shape:
  "tool_loop client tm self_model bp max_it it msgs cur s = (res, s') \<Longrightarrow>
     \<exists>ext. model_calls (log s') = model_calls (log s) @ ext
       \<and> (\<forall>c \<in> set ext. fst c = follow_up_params self_model bp (messages (fst c)))"
proof (induction "max_it - it" arbitrary: it msgs cur s)
  case 0
  from "0.prems" show ?case
    using "0.hyps" by (cases rule: tool_loop_cases) auto
next
  case (Suc n)
  from Suc.prems show ?case
  proof (cases rule: tool_loop_cases)
    case exit
    then show ?thesis by simp
  next
    case (tool_raises e)
    then show ?thesis by (auto dest: collect_model_calls)
  next
    case (model_raises trs s1 e)
    then show ?thesis by (auto dest!: collect_model_calls messages_create_log)
  next
    case (final trs s1 r)
    then show ?thesis by (auto dest!: collect_model_calls messages_create_log)
  next
    case (again trs s1 r s2)
    let ?c = "(follow_up_params self_model bp (next_messages msgs cur trs), Inr r :: exn + response)"
    from again(2,3) have m2: "model_calls (log s2) = model_calls (log s) @ [?c]"
      by (auto dest!: collect_model_calls messages_create_log)
    from Suc.hyps(2) have "n = max_it - Suc it" by simp
    from Suc.hyps(1) [OF this again(5)] obtain ext
      where e: "model_calls (log s') = model_calls (log s2) @ ext"
        "\<forall>c \<in> set ext. fst c = follow_up_params self_model bp (messages (fst c))" by blast
    from m2 e have "model_calls (log s') = model_calls (log s) @ (?c # ext)"
      "\<forall>c \<in> set (?c # ext). fst c = follow_up_params self_model bp (messages (fst c))"
      by simp_all
    then show ?thesis by blast
  qed
qed

lemma tool_loop_linked:
  assumes "tool_loop client tm self_model bp max_it it msgs cur s = (res, s')"
    and "model_calls (log s) = pre @ [(p, Inr cur)]" and "messages p = msgs"
  shows "\<exists>ext. model_calls (log s') = pre @ (p, Inr cur) # ext
           \<and> successively linked ((p, Inr cur) # ext)"
  using assms
proof (induction "max_it - it" arbitrary: it msgs cur s p pre)
  case 0
  from "0.prems"(1) show ?case
    using "0.hyps" "0.prems"(2) by (cases rule: tool_loop_cases) auto
next
  case (Suc n)
  have link: "linked (p, Inr cur) (follow_up_params self_model bp (next_messages msgs cur trs), r)"
    if "collect_tool_results tm (content cur) [] s = (Inr trs, s1)" for trs s1 r
  proof -
    from that have "map tool_use_id trs = tool_use_ids (content cur)"
      by (auto dest: collect_ids)
    with Suc.prems(3) show ?thesis
      unfolding linked_def by (intro exI [of _ cur] exI [of _ trs]) simp
  qed
  from Suc.prems(1) show ?case
  proof (cases rule: tool_loop_cases)
    case exit
    with Suc.prems(2) show ?thesis by simp
  next
    case (tool_raises e)
    with Suc.prems(2) show ?thesis by (auto dest: collect_model_calls)
  next
    case (model_raises trs s1 e)
    with Suc.prems(2) link show ?thesis
      by (auto dest!: collect_model_calls messages_create_log)
  next
    case (final trs s1 r)
    with Suc.prems(2) link show ?thesis
      by (auto dest!: collect_model_calls messages_create_log)
  next
    case (again trs s1 r s2)
    let ?p = "follow_up_params self_model bp (next_messages msgs cur trs)"
    from again(2,3) Suc.prems(2)
    have m2: "model_calls (log s2) = (pre @ [(p, Inr cur)]) @ [(?p, Inr r)]"
      by (auto dest!: collect_model_calls messages_create_log)
    from Suc.hyps(2) have "n = max_it - Suc it" by simp
    from Suc.hyps(1) [OF this again(5) m2] obtain ext
      where e: "model_calls (log s') = (pre @ [(p, Inr cur)]) @ (?p, Inr r) # ext"
        "successively linked ((?p, Inr r) # ext)" by auto
    from e link [OF again(2)] have "model_calls (log s') = pre @ (p, Inr cur) # ((?p, Inr r) # ext)"
      "successively linked ((p, Inr cur) # ((?p, Inr r) # ext))"
      by simp_all
    then show ?thesis by blast
  qed
qed

lemma tool_loop_final_response:
  assumes "tool_loop client tm self_model bp max_it it msgs cur s = (Inr fin, s')"
    and "model_calls (log s) = pre @ [(p, Inr cur)]"
  shows "\<exists>pre' p'. model_calls (log s') = pre' @ [(p', Inr fin)]"
  using assms
proof (induction "max_it - it" arbitrary: it msgs cur s p pre)
  case 0
  from "0.prems"(1) show ?case
    using "0.hyps" "0.prems"(2) by (cases rule: tool_loop_cases) auto
next
  case (Suc n)
  from Suc.prems(1) show ?case
  proof (cases rule: tool_loop_cases)
    case exit
    with Suc.prems(2) show ?thesis by simp
  next
    case (tool_raises e)
    then show ?thesis by simp
  next
    case (model_raises trs s1 e)
    then show ?thesis by simp
  next
    case (final trs s1 r)
    with Suc.prems(2) show ?thesis
      by (auto dest!: collect_model_calls messages_create_log)
  next
    case (again trs s1 r s2)
    let ?p = "follow_up_params self_model bp (next_messages msgs cur trs)"
    from again(2,3) Suc.prems(2)
    have m2: "model_calls (log s2) = (pre @ [(p, Inr cur)]) @ [(?p, Inr r)]"
      by (auto dest!: collect_model_calls messages_create_log)
    from Suc.hyps(2) have "n = max_it - Suc it" by simp
    from Suc.hyps(1) [OF this again(5) m2] show ?thesis .
  qed
qed

section \<open>The trace of a query\<close>

lemma handle_tool_execution_cases [consumes 1, case_names raises returns]:
  assumes "handle_tool_execution client self_model r bp tm s = (res, s')"
  obtains
    (raises) e where
      "tool_loop client tm self_model bp max_iterations 0 (messages bp) r s = (Inl e, s')"
      "res = Inl e"
  | (returns) fin where
      "tool_loop client tm self_model bp max_iterations 0 (messages bp) r s = (Inr fin, s')"
      "res = Inr (extract_text fin)"
  using assms
  by (auto simp: handle_tool_execution_def split: prod.splits sum.splits)

lemma generate_response_cases [consumes 1, case_names model_raises direct tool_path]:
  assumes "generate_response client self_model query h ts tm s = (res, s')"
  obtains
    (model_raises) e where
      "messages_create client (initial_params self_model query h ts) s = (Inl e, s')"
      "res = Inl e"
  | (direct) r where
      "messages_create client (initial_params self_model query h ts) s = (Inr r, s')"
      "tm = None \<or> stop_reason r \<noteq> ''tool_use''"
      "res = first_block_text r"
  | (tool_path) r s1 m where
      "messages_create client (initial_params self_model query h ts) s = (Inr r, s1)"
      "tm = Some m" "stop_reason r = ''tool_use''"
      "handle_tool_execution client self_model r (initial_params self_model query h ts) m s1
         = (res, s')"
  using assms
  by (auto simp: generate_response_def Let_def split: prod.splits sum.splits option.splits if_splits)

lemma clean_Cons [simp]: "clean (ev # evs) \<longleftrightarrow> event_error ev = None \<and> clean evs"
  by (auto simp: clean_def)

lemma log_init [simp]: "log (init w) = []"
  by (simp add: init_def)

lemma messages_initial_params [simp]:
  "messages (initial_params self_model query h ts) = [Message User (PlainText query)]"
  by (simp add: initial_params_def with_base_params_def Let_def split: option.splits)

lemma system_initial_params [simp]:
  "system (initial_params self_model query h ts) = system_content h"
  by (simp add: initial_params_def with_base_params_def Let_def split: option.splits)

lemma initial_params_shape:
  "initial_params self_model query h ts =
     follow_up_params self_model (initial_params self_model query h ts)
       (messages (initial_params self_model query h ts))"
  by (simp add: initial_params_def follow_up_params_def with_base_params_def Let_def split: option.splits)

lemma generate_response_model_calls:
  assumes "generate_response client self_model query h ts tm (init w) = (res, s')"
  shows "\<exists>r0 ext. model_calls (log s') = (initial_params self_model query h ts, r0) # ext
           \<and> length ext \<le> max_iterations
           \<and> (\<forall>c \<in> set ext. fst c = follow_up_params self_model
                 (initial_params self_model query h ts) (messages (fst c)))
           \<and> successively linked ((initial_params self_model query h ts, r0) # ext)"
  using assms
proof (cases rule: generate_response_cases)
  case (model_raises e)
  then show ?thesis by (auto dest!: messages_create_log)
next
  case (direct r)
  then show ?thesis by (auto dest!: messages_create_log)
next
  case (tool_path r s1 m)
  let ?p0 = "initial_params self_model query h ts"
  from tool_path(1) have m1: "model_calls (log s1) = [] @ [(?p0, Inr r)]"
    by (auto dest!: messages_create_log)
  obtain lres where loop:
    "tool_loop client m self_model ?p0 max_iterations 0 (messages ?p0) r s1 = (lres, s')"
    using tool_path(4) by (cases rule: handle_tool_execution_cases) auto
  from tool_loop_linked [OF loop m1 refl] obtain ext
    where e: "model_calls (log s') = (?p0, Inr r) # ext"
      "successively linked ((?p0, Inr r) # ext)" by auto
  from tool_loop_shape [OF loop] m1 e(1)
  have sh: "\<forall>c \<in> set ext. fst c = follow_up_params self_model ?p0 (messages (fst c))"
    by auto
  from tool_loop_bound [OF loop] m1 e(1) have "length ext \<le> max_iterations"
    by simp
  with e sh show ?thesis by blast
qed

lemma generate_response_fits:
  assumes "generate_response client self_model query h ts tm (init w) = (res, s')"
  shows "clean (log s') \<or> fits res (log s')"
  using assms
proof (cases rule: generate_response_cases)
  case (model_raises e)
  then show ?thesis by (auto dest!: messages_create_log simp: fits_def)
next
  case (direct r)
  then show ?thesis by (auto dest!: messages_create_log)
next
  case (tool_path r s1 m)
  let ?p0 = "initial_params self_model query h ts"
  from tool_path(1) have l1: "log s1 = [ModelCall ?p0 (Inr r)]"
    by (auto dest!: messages_create_log)
  from tool_path(4) show ?thesis
  proof (cases rule: handle_tool_execution_cases)
    case (raises e)
    from tool_loop_fits [OF raises(1)] obtain ext
      where "log s' = log s1 @ ext" "fits (Inl e :: exn + response) ext" by blast
    with l1 raises(2) have "fits res (log s')"
      by (auto simp: fits_def intro!: fits_Cons)
    then show ?thesis ..
  next
    case (returns fin)
    from tool_loop_fits [OF returns(1)] obtain ext
      where "log s' = log s1 @ ext" "fits (Inr fin :: exn + response) ext" by blast
    with l1 have "clean (log s')"
      by (auto simp: fits_def)
    then show ?thesis ..
  qed
qed

section \<open>The bound on model requests\<close>

text \<open>
  C1: for every query, the driver issues at most \<open>1 + max_iterations\<close> model requests,
  where \<open>max_iterations = 3\<close>: the initial request and at most three follow-up requests
  of the tool-execution loop.
\<close>

theorem request_bound:
  "length (model_calls (log (snd
      (generate_response client self_model query h ts tm (init w))))) \<le> 1 + max_iterations
   \<and> max_iterations = 3"
proof -
  obtain res s' where run: "generate_response client self_model query h ts tm (init w) = (res, s')"
    by (cases "generate_response client self_model query h ts tm (init w)")
  from generate_response_model_calls [OF run] run show ?thesis
    by (auto simp: max_iterations_def)
qed

text \<open>The bound is reached when the model asks for tools four times in a row.\<close>

lemma four_requests_reached: "length (model_calls (log (snd run_four_rounds))) = 4"
  by (simp add: run_four_rounds_def run_simps tool_use_response_def)

section \<open>Tool results answer tool uses\<close>

text \<open>
  C2, as amended: whenever a model response is followed by another model request of the
  same query, that request's messages are the previous request's messages, then the
  response as exactly one assistant turn, then, if the response has \<open>N \<ge> 1\<close>
  \<^verbatim>\<open>tool_use\<close> blocks, exactly one user turn of exactly \<open>N\<close> \<^verbatim>\<open>tool_result\<close> blocks whose
  \<^verbatim>\<open>tool_use_id\<close>s are the ids of these blocks in order. If the response has no
  \<^verbatim>\<open>tool_use\<close> block, no user turn is appended.
\<close>

theorem tool_results_answer_tool_uses:
  assumes "mcs = model_calls (log (snd
             (generate_response client self_model query h ts tm (init w))))"
    and "Suc k < length mcs"
  shows "\<exists>resp trs. snd (mcs ! k) = Inr resp
           \<and> length trs = length (tool_use_ids (content resp))
           \<and> map tool_use_id trs = tool_use_ids (content resp)
           \<and> messages (fst (mcs ! Suc k)) =
               messages (fst (mcs ! k)) @ [Message Assistant (Blocks (content resp))]
                 @ (if tool_use_ids (content resp) = [] then []
                    else [Message User (ToolResults trs)])"
proof -
  obtain res s' where run: "generate_response client self_model query h ts tm (init w) = (res, s')"
    by (cases "generate_response client self_model query h ts tm (init w)")
  from generate_response_model_calls [OF run] run assms(1)
  have "successively linked mcs" by auto
  from successively_nth [OF this assms(2)] obtain resp trs
    where l: "snd (mcs ! k) = Inr resp" "map tool_use_id trs = tool_use_ids (content resp)"
      "messages (fst (mcs ! Suc k)) = next_messages (messages (fst (mcs ! k))) resp trs"
    unfolding linked_def by blast
  from l(2) have len: "length trs = length (tool_use_ids (content resp))"
    by (metis length_map)
  from l(2) have "trs = [] \<longleftrightarrow> tool_use_ids (content resp) = []"
    by (metis map_is_Nil_conv)
  with l(3) have "messages (fst (mcs ! Suc k)) =
      messages (fst (mcs ! k)) @ [Message Assistant (Blocks (content resp))]
        @ (if tool_use_ids (content resp) = [] then [] else [Message User (ToolResults trs)])"
    by (simp add: next_messages_def)
  with l(1,2) len show ?thesis by blast
qed

lemma run_chain_model_calls:
  "map (messages \<circ> fst) (model_calls (log (snd run_chain))) =
     [[Message User (PlainText ''What does the MCP course say on Python?'')],
      [Message User (PlainText ''What does the MCP course say on Python?''),
       Message Assistant (Blocks (content outline_request)),
       Message User (ToolResults [ToolResult ''tool_456'' ''Lesson 1: Python''])],
      [Message User (PlainText ''What does the MCP course say on Python?''),
       Message Assistant (Blocks (content outline_request)),
       Message User (ToolResults [ToolResult ''tool_456'' ''Lesson 1: Python'']),
       Message Assistant (Blocks (content tool_use_response)),
       Message User (ToolResults
         [ToolResult ''tool_123'' ''Search results: Python content found''])]]"
  by (simp add: run_chain_def run_simps outline_request_def tool_use_response_def
        final_response_def with_base_params_def)

theorem tool_results_answer_tool_uses_witness:
  "Suc 1 < length (model_calls (log (snd run_chain)))
   \<and> (\<exists>resp trs. snd (model_calls (log (snd run_chain)) ! 1) = Inr resp
         \<and> length trs = length (tool_use_ids (content resp))
         \<and> map tool_use_id trs = tool_use_ids (content resp)
         \<and> messages (fst (model_calls (log (snd run_chain)) ! Suc 1)) =
             messages (fst (model_calls (log (snd run_chain)) ! 1))
               @ [Message Assistant (Blocks (content resp))]
               @ (if tool_use_ids (content resp) = [] then []
                  else [Message User (ToolResults trs)]))
   \<and> snd (model_calls (log (snd run_chain)) ! 1) = Inr tool_use_response
   \<and> tool_use_ids (content tool_use_response) = [''tool_123'']"
proof -
  have len: "Suc 1 < length (model_calls (log (snd run_chain)))"
    using arg_cong [OF run_chain_model_calls, of length] by simp
  have r: "snd (model_calls (log (snd run_chain)) ! 1) = Inr tool_use_response"
    by (simp add: run_chain_def run_simps outline_request_def tool_use_response_def
          final_response_def)
  have i: "tool_use_ids (content tool_use_response) = [''tool_123'']"
    by (simp add: tool_use_response_def)
  from tool_results_answer_tool_uses [OF _ len, unfolded run_chain_def, OF refl] len r i
  show ?thesis unfolding run_chain_def by blast
qed

text \<open>
  C2 as stated fails for a response that signals tool use and has no \<^verbatim>\<open>tool_use\<close> block
  (\<open>N = 0\<close>): the next request carries the assistant turn and no user turn after it.
\<close>

theorem tool_results_turn_counterexample:
  "tool_use_ids (content text_only_tool_use) = []
   \<and> map snd (model_calls (log (snd run_no_tool_blocks)))
       = [Inr text_only_tool_use, Inr final_response]
   \<and> map (messages \<circ> fst) (model_calls (log (snd run_no_tool_blocks))) =
       [[Message User (PlainText ''What is Python?'')],
        [Message User (PlainText ''What is Python?''),
         Message Assistant (Blocks (content text_only_tool_use))]]
   \<and> messages (fst (model_calls (log (snd run_no_tool_blocks)) ! 1)) \<noteq>
       messages (fst (model_calls (log (snd run_no_tool_blocks)) ! 0))
         @ [Message Assistant (Blocks (content text_only_tool_use)),
            Message User (ToolResults [])]"
  by (simp add: run_no_tool_blocks_def run_simps text_only_tool_use_def final_response_def
        with_base_params_def)

section \<open>The parameters of every request\<close>

lemma tools_follow_up_params [simp]: "tools (follow_up_params self_model bp msgs) = tools bp"
  by (simp add: follow_up_params_def with_base_params_def)

lemma system_follow_up_params [simp]: "system (follow_up_params self_model bp msgs) = system bp"
  by (simp add: follow_up_params_def with_base_params_def)

lemma tool_choice_follow_up_params [simp]:
  "tool_choice (follow_up_params self_model bp msgs) =
     (if tools bp \<noteq> None then Some (ToolChoice ''auto'') else None)"
  by (simp add: follow_up_params_def with_base_params_def)

lemma base_follow_up_params [simp]:
  "model (follow_up_params self_model bp msgs) = self_model"
  "temperature (follow_up_params self_model bp msgs) = 0"
  "max_tokens (follow_up_params self_model bp msgs) = 800"
  by (simp_all add: follow_up_params_def with_base_params_def)

lemma tools_initial_params:
  "tools (initial_params self_model query h ts) =
     (case ts of None \<Rightarrow> None | Some xs \<Rightarrow> if xs \<noteq> [] then Some xs else None)"
  by (simp add: initial_params_def with_base_params_def Let_def split: option.splits)

text \<open>Every request of a query has the shape of a follow-up request, the first one too.\<close>

lemma generate_response_requests:
  assumes "c \<in> set (model_calls (log (snd
             (generate_response client self_model query h ts tm (init w)))))"
  shows "fst c = follow_up_params self_model (initial_params self_model query h ts)
                   (messages (fst c))"
proof -
  obtain res s' where run: "generate_response client self_model query h ts tm (init w) = (res, s')"
    by (cases "generate_response client self_model query h ts tm (init w)")
  from generate_response_model_calls [OF run] obtain r0 ext
    where "model_calls (log s') = (initial_params self_model query h ts, r0) # ext"
      "\<forall>c \<in> set ext. fst c = follow_up_params self_model
             (initial_params self_model query h ts) (messages (fst c))"
    by blast
  with assms run initial_params_shape [of self_model query h ts] show ?thesis
    by auto
qed

lemma system_content_sublist: "sublist hist (system_content (Some hist))"
proof (cases "hist = []")
  case True
  then show ?thesis by simp
next
  case False
  have "sublist hist ((SYSTEM_PROMPT @ ''\<newline>\<newline>Previous conversation:\<newline>'') @ hist)"
    by (rule sublist_append_leftI)
  with False show ?thesis by (simp add: system_content_def)
qed

text \<open>
  C5: when a conversation history is supplied, the history string appears verbatim
  inside the system content of every model request of the query (for a non-empty
  history the system content is the template, the line \<^verbatim>\<open>Previous conversation:\<close> and
  the history); when none is supplied, the system content is \<open>SYSTEM_PROMPT\<close>.
\<close>

theorem history_in_system_content:
  "\<forall>c \<in> set (model_calls (log (snd
       (generate_response client self_model query h ts tm (init w))))).
     (h = None \<longrightarrow> system (fst c) = SYSTEM_PROMPT)
     \<and> (\<forall>hist. h = Some hist \<longrightarrow> sublist hist (system (fst c)))
     \<and> (\<forall>hist. h = Some hist \<and> hist \<noteq> [] \<longrightarrow>
           system (fst c) =
             SYSTEM_PROMPT @ ''\<newline>\<newline>Previous conversation:\<newline>'' @ hist)"
proof
  fix c
  assume "c \<in> set (model_calls (log (snd
       (generate_response client self_model query h ts tm (init w)))))"
  from generate_response_requests [OF this]
  have "system (fst c) = system_content h"
    by (metis system_follow_up_params system_initial_params)
  then show "(h = None \<longrightarrow> system (fst c) = SYSTEM_PROMPT)
     \<and> (\<forall>hist. h = Some hist \<longrightarrow> sublist hist (system (fst c)))
     \<and> (\<forall>hist. h = Some hist \<and> hist \<noteq> [] \<longrightarrow>
           system (fst c) =
             SYSTEM_PROMPT @ ''\<newline>\<newline>Previous conversation:\<newline>'' @ hist)"
    using system_content_sublist by (auto simp: system_content_def)
qed

lemma run_chain_length: "length (model_calls (log (snd run_chain))) = 3"
  by (simp add: run_chain_def run_simps outline_request_def tool_use_response_def
        final_response_def)

theorem history_in_system_content_witness:
  "length (model_calls (log (snd run_chain))) = 3
   \<and> sublist history (system (fst (model_calls (log (snd run_chain)) ! 0)))
   \<and> sublist history (system (fst (model_calls (log (snd run_chain)) ! 1)))
   \<and> system (fst (model_calls (log (snd run_chain)) ! 2)) =
       SYSTEM_PROMPT @ ''\<newline>\<newline>Previous conversation:\<newline>'' @ history
   \<and> length (model_calls (log (snd run_four_rounds))) = 4
   \<and> system (fst (model_calls (log (snd run_four_rounds)) ! 3)) = SYSTEM_PROMPT"
proof -
  note len = run_chain_length
  have ne: "history \<noteq> []" by (simp add: history_def)
  have mem: "model_calls (log (snd run_chain)) ! k \<in> set (model_calls (log (snd run_chain)))"
    if "k < 3" for k
    using that len by simp
  have inst: "\<forall>c \<in> set (model_calls (log (snd run_chain))).
     (Some history = None \<longrightarrow> system (fst c) = SYSTEM_PROMPT)
     \<and> (\<forall>hist. Some history = Some hist \<longrightarrow> sublist hist (system (fst c)))
     \<and> (\<forall>hist. Some history = Some hist \<and> hist \<noteq> [] \<longrightarrow>
           system (fst c) =
             SYSTEM_PROMPT @ ''\<newline>\<newline>Previous conversation:\<newline>'' @ hist)"
    unfolding run_chain_def by (rule history_in_system_content)
  from inst mem [of 0] have c0:
    "sublist history (system (fst (model_calls (log (snd run_chain)) ! 0)))" by simp
  from inst mem [of 1] have c1:
    "sublist history (system (fst (model_calls (log (snd run_chain)) ! 1)))" by simp
  from inst mem [of 2] ne have c2:
    "system (fst (model_calls (log (snd run_chain)) ! 2)) =
       SYSTEM_PROMPT @ ''\<newline>\<newline>Previous conversation:\<newline>'' @ history" by simp
  note len4 = four_requests_reached
  have inst4: "\<forall>c \<in> set (model_calls (log (snd run_four_rounds))).
     ((None :: string option) = None \<longrightarrow> system (fst c) = SYSTEM_PROMPT)
     \<and> (\<forall>hist. None = Some hist \<longrightarrow> sublist hist (system (fst c)))
     \<and> (\<forall>hist. None = Some hist \<and> hist \<noteq> [] \<longrightarrow>
           system (fst c) =
             SYSTEM_PROMPT @ ''\<newline>\<newline>Previous conversation:\<newline>'' @ hist)"
    unfolding run_four_rounds_def by (rule history_in_system_content)
  have "model_calls (log (snd run_four_rounds)) ! 3 \<in> set (model_calls (log (snd run_four_rounds)))"
    using len4 by simp
  with inst4 have c3: "system (fst (model_calls (log (snd run_four_rounds)) ! 3)) = SYSTEM_PROMPT"
    by simp
  from len c0 c1 c2 len4 c3 show ?thesis by (intro conjI)
qed

text \<open>
  C9: every model request of a query, the initial one and every follow-up request of
  the loop, carries the model name of the generator, temperature 0 and
  \<^verbatim>\<open>max_tokens\<close> 800, and the tool-choice mode \<^verbatim>\<open>auto\<close> whenever tool schemas are attached.
\<close>

theorem fixed_invocation_parameters:
  "\<forall>c \<in> set (model_calls (log (snd
       (generate_response client self_model query h ts tm (init w))))).
     model (fst c) = self_model \<and> temperature (fst c) = 0 \<and> max_tokens (fst c) = 800
     \<and> (tools (fst c) \<noteq> None \<longrightarrow> tool_choice (fst c) = Some (ToolChoice ''auto''))"
proof
  fix c
  assume "c \<in> set (model_calls (log (snd
       (generate_response client self_model query h ts tm (init w)))))"
  from generate_response_requests [OF this]
  obtain bp msgs where "fst c = follow_up_params self_model bp msgs" ..
  then show "model (fst c) = self_model \<and> temperature (fst c) = 0 \<and> max_tokens (fst c) = 800
     \<and> (tools (fst c) \<noteq> None \<longrightarrow> tool_choice (fst c) = Some (ToolChoice ''auto''))"
    by simp
qed

theorem fixed_invocation_parameters_witness:
  "length (model_calls (log (snd run_four_rounds))) = 4
   \<and> temperature (fst (model_calls (log (snd run_four_rounds)) ! 0)) = 0
   \<and> max_tokens (fst (model_calls (log (snd run_four_rounds)) ! 0)) = 800
   \<and> temperature (fst (model_calls (log (snd run_four_rounds)) ! 3)) = 0
   \<and> max_tokens (fst (model_calls (log (snd run_four_rounds)) ! 3)) = 800
   \<and> model (fst (model_calls (log (snd run_four_rounds)) ! 3)) = ''test-model''
   \<and> tools (fst (model_calls (log (snd run_four_rounds)) ! 3)) = Some sample_tools
   \<and> tool_choice (fst (model_calls (log (snd run_four_rounds)) ! 3))
       = Some (ToolChoice ''auto'')"
proof -
  note len = four_requests_reached
  have inst: "\<forall>c \<in> set (model_calls (log (snd run_four_rounds))).
     model (fst c) = ''test-model'' \<and> temperature (fst c) = 0 \<and> max_tokens (fst c) = 800
     \<and> (tools (fst c) \<noteq> None \<longrightarrow> tool_choice (fst c) = Some (ToolChoice ''auto''))"
    unfolding run_four_rounds_def by (rule fixed_invocation_parameters)
  have mem: "model_calls (log (snd run_four_rounds)) ! k
               \<in> set (model_calls (log (snd run_four_rounds)))" if "k < 4" for k
    using that len by simp
  have t3: "tools (fst (model_calls (log (snd run_four_rounds)) ! 3)) = Some sample_tools"
    by (simp add: run_four_rounds_def run_simps tool_use_response_def sample_tools_def
          tools_initial_params)
  from inst mem [of 0] have c0:
    "temperature (fst (model_calls (log (snd run_four_rounds)) ! 0)) = 0
     \<and> max_tokens (fst (model_calls (log (snd run_four_rounds)) ! 0)) = 800" by simp
  from inst mem [of 3] t3 have c3:
    "temperature (fst (model_calls (log (snd run_four_rounds)) ! 3)) = 0
     \<and> max_tokens (fst (model_calls (log (snd run_four_rounds)) ! 3)) = 800
     \<and> model (fst (model_calls (log (snd run_four_rounds)) ! 3)) = ''test-model''
     \<and> tool_choice (fst (model_calls (log (snd run_four_rounds)) ! 3))
         = Some (ToolChoice ''auto'')" by simp
  from len c0 c3 t3 show ?thesis by blast
qed




section \<open>Exceptions of the collaborators\<close>

text \<open>
  C6: an exception raised by the model call or by a tool execution propagates out of
  \<open>generate_response\<close> unmodified. Whenever a call of the trace raised, it is the last
  call of the trace (nothing is retried, nothing more is asked) and the exception it
  raised is the outcome of \<open>generate_response\<close> (no fallback stands in for it).
\<close>

theorem exceptions_propagate:
  assumes "generate_response client self_model query h ts tm (init w) = (res, s')"
    and "log s' = before @ ev # after"
    and "event_error ev = Some e"
  shows "after = [] \<and> res = Inl e"
proof -
  from assms(2,3) have "\<not> clean (log s')"
    by (auto simp: clean_def)
  with generate_response_fits [OF assms(1)] have f: "fits res (log s')" by blast
  show ?thesis
  proof (cases res)
    case (Inr t)
    with f \<open>\<not> clean (log s')\<close> show ?thesis by (simp add: fits_def)
  next
    case (Inl e')
    with f have c: "clean (butlast (log s'))" and l: "event_error (last (log s')) = Some e'"
      by (simp_all add: fits_def)
    have "after = []"
    proof (rule ccontr)
      assume "after \<noteq> []"
      with assms(2) have "ev \<in> set (butlast (log s'))"
        by (simp add: butlast_append)
      with c assms(3) show False by (simp add: clean_def)
    qed
    with assms(2,3) l Inl show ?thesis by simp
  qed
qed

theorem exceptions_propagate_witness:
  "log (snd run_tool_raises) =
     [ModelCall (initial_params ''test-model'' ''test'' None (Some sample_tools))
        (Inr tool_use_response)]
     @ ToolCall ''search_course_content'' [(''query'', ''Python basics'')]
         (Inl (Raised ''Tool execution failed'')) # []
   \<and> event_error (ToolCall ''search_course_content'' [(''query'', ''Python basics'')]
         (Inl (Raised ''Tool execution failed''))) = Some (Raised ''Tool execution failed'')
   \<and> fst run_tool_raises = Inl (Raised ''Tool execution failed'')"
proof -
  have l: "log (snd run_tool_raises) =
     [ModelCall (initial_params ''test-model'' ''test'' None (Some sample_tools))
        (Inr tool_use_response)]
     @ ToolCall ''search_course_content'' [(''query'', ''Python basics'')]
         (Inl (Raised ''Tool execution failed'')) # []"
    by (simp add: run_tool_raises_def run_simps tool_use_response_def)
  have e: "event_error (ToolCall ''search_course_content'' [(''query'', ''Python basics'')]
         (Inl (Raised ''Tool execution failed''))) = Some (Raised ''Tool execution failed'')"
    by simp
  have run: "generate_response mock_client ''test-model'' ''test'' None
       (Some sample_tools) (Some mock_tool_manager)
       (init ([Inr tool_use_response, Inr final_response],
              [Inl (Raised ''Tool execution failed'')]))
     = (fst run_tool_raises, snd run_tool_raises)"
    by (simp add: run_tool_raises_def)
  from exceptions_propagate [OF run l e] l e show ?thesis by blast
qed

text \<open>A model call that raises ends the query in the same way.\<close>

lemma api_error_propagates:
  "generate_response mock_client self_model query h ts tm
     (init ([Inl (Raised ''API Error'')], tool_script))
   = (Inl (Raised ''API Error''),
      \<lparr>world = ([], tool_script),
       log = [ModelCall (initial_params self_model query h ts) (Inl (Raised ''API Error''))]\<rparr>)"
  by (simp add: generate_response_def messages_create_def mock_client_def init_def Let_def)

section \<open>Unknown tools\<close>

lemma not_found_message_sublist:
  "sublist ''not found'' (not_found_message name)"
proof -
  have "not_found_message name = (''Tool '' @ [CHR 0x27] @ name @ [CHR 0x27] @ '' '') @ ''not found''"
    by (simp add: not_found_message_def)
  then show ?thesis by (metis sublist_append_leftI)
qed

text \<open>
  C8: for a tool name that is not in the registry, and any keyword arguments,
  \<open>execute_tool\<close> of the manager returns the string \<^verbatim>\<open>Tool '<name>' not found\<close>, which
  contains \<^verbatim>\<open>not found\<close>; it does not raise and leaves the world as it is.
\<close>

theorem unknown_tool_not_found:
  assumes "registry name = None"
  shows "manager_execute_tool registry w name kwargs =
           (Inr (''Tool '' @ [CHR 0x27] @ name @ [CHR 0x27] @ '' not found''), w)
         \<and> sublist ''not found'' (''Tool '' @ [CHR 0x27] @ name @ [CHR 0x27] @ '' not found'')"
  using assms not_found_message_sublist [of name]
  by (simp add: manager_execute_tool_def not_found_message_def)

theorem unknown_tool_not_found_witness:
  "(Map.empty :: string \<rightharpoonup> unit capability) ''nonexistent_tool'' = None
   \<and> manager_execute_tool (Map.empty :: string \<rightharpoonup> unit capability) ()
        ''nonexistent_tool'' [(''param'', ''value'')]
       = (Inr (''Tool '' @ [CHR 0x27] @ ''nonexistent_tool'' @ [CHR 0x27] @ '' not found''), ())"
proof -
  have h: "(Map.empty :: string \<rightharpoonup> unit capability) ''nonexistent_tool'' = None"
    by simp
  from unknown_tool_not_found [where w = "()" and kwargs = "[(''param'', ''value'')]", OF h] h
  show ?thesis by blast
qed

text \<open>
  With such a manager the loop goes on after an unknown tool: the message becomes the
  tool result of the next request, and the query ends with the model's answer.
\<close>

lemma unknown_tool_loop_continues:
  "fst run_unknown_tool = Inr ''Based on the search, Python is great.''
   \<and> map (messages \<circ> fst) (model_calls (log (snd run_unknown_tool))) =
       [[Message User (PlainText ''What is Python?'')],
        [Message User (PlainText ''What is Python?''),
         Message Assistant (Blocks (content tool_use_response)),
         Message User (ToolResults
           [ToolResult ''tool_123'' (not_found_message ''search_course_content'')])]]"
  by (simp add: run_unknown_tool_def run_simps tool_use_response_def final_response_def
        with_base_params_def)

section \<open>Without a tool manager\<close>

text \<open>
  C10, as amended: when no tool manager is supplied, \<open>generate_response\<close> issues exactly
  one model request and executes no tool, whatever the response signals; if that
  request returns a response whose first content block is a text block, the result is
  that block's text.
\<close>

theorem no_manager_single_request:
  "log (snd (generate_response client self_model query h ts None (init w))) =
     [ModelCall (initial_params self_model query h ts)
        (fst (client w (initial_params self_model query h ts)))]
   \<and> (\<forall>r t rest. fst (client w (initial_params self_model query h ts)) = Inr r
         \<and> content r = TextBlock t # rest \<longrightarrow>
         fst (generate_response client self_model query h ts None (init w)) = Inr t)"
  by (auto simp: generate_response_def messages_create_def init_def Let_def
        first_block_text_def split: prod.splits sum.splits)

theorem no_manager_single_request_witness:
  "fst (mock_client ([Inr outline_request, Inr final_response], [Inr ''unused''])
          (initial_params ''test-model'' ''Outline of MCP?'' None (Some sample_tools)))
     = Inr outline_request
   \<and> content outline_request = TextBlock ''Let me look at the outline.''
       # [ToolUseBlock ''tool_456'' ''get_course_outline'' [(''course_name'', ''MCP'')]]
   \<and> stop_reason outline_request = ''tool_use''
   \<and> fst run_outline_unmanaged = Inr ''Let me look at the outline.''
   \<and> length (model_calls (log (snd run_outline_unmanaged))) = 1
   \<and> tool_calls (log (snd run_outline_unmanaged)) = []"
proof -
  have c: "fst (mock_client ([Inr outline_request, Inr final_response], [Inr ''unused''])
          (initial_params ''test-model'' ''Outline of MCP?'' None (Some sample_tools)))
     = Inr outline_request"
    by (simp add: mock_client_def)
  have b: "content outline_request = TextBlock ''Let me look at the outline.''
       # [ToolUseBlock ''tool_456'' ''get_course_outline'' [(''course_name'', ''MCP'')]]"
    "stop_reason outline_request = ''tool_use''"
    by (simp_all add: outline_request_def)
  note inst = no_manager_single_request [of mock_client "''test-model''" "''Outline of MCP?''"
      None "Some sample_tools" "([Inr outline_request, Inr final_response], [Inr ''unused''])",
      folded run_outline_unmanaged_def]
  from inst c b(1) have res: "fst run_outline_unmanaged = Inr ''Let me look at the outline.''"
    by blast
  from inst have "length (model_calls (log (snd run_outline_unmanaged))) = 1"
    "tool_calls (log (snd run_outline_unmanaged)) = []"
    by simp_all
  with c b res show ?thesis by blast
qed

text \<open>
  C10 as stated fails when the single response starts with a \<^verbatim>\<open>tool_use\<close> block: the
  block has no text, and \<^verbatim>\<open>response.content[0].text\<close> raises.
\<close>

theorem no_manager_text_counterexample:
  "fst run_search_unmanaged = Inl AttributeError
   \<and> map snd (model_calls (log (snd run_search_unmanaged))) = [Inr tool_use_response]
   \<and> stop_reason tool_use_response = ''tool_use''"
  by (simp add: run_search_unmanaged_def run_simps tool_use_response_def)

section \<open>The text of the final response\<close>

lemma fallback_no_content_sublist:
  "sublist ''unable to generate a response'' fallback_no_content"
proof -
  have "fallback_no_content =
      ''I was '' @ ''unable to generate a response'' @ ''. Please try rephrasing your question.''"
    by (simp add: fallback_no_content_def)
  then show ?thesis by (metis sublist_appendI)
qed

lemma extract_text_empty: "content r = [] \<Longrightarrow> extract_text r = fallback_no_content"
  by (simp add: extract_text_def)

lemma first_text_append:
  "\<forall>b \<in> set before. \<forall>x. b \<noteq> TextBlock x \<Longrightarrow> first_text (before @ bs) = first_text bs"
proof (induction before)
  case Nil
  then show ?case by simp
next
  case (Cons b before)
  then show ?case by (cases b) auto
qed

lemma extract_text_first:
  assumes "content r = before @ TextBlock t # rest" and "\<forall>b \<in> set before. \<forall>x. b \<noteq> TextBlock x"
  shows "extract_text r = t"
  using assms by (simp add: extract_text_def first_text_append)

lemma extract_text_no_text:
  assumes "content r \<noteq> []" and "\<forall>b \<in> set (content r). \<forall>x. b \<noteq> TextBlock x"
  shows "extract_text r = fallback_no_text"
  using assms first_text_append [of "content r" "[]"] by (simp add: extract_text_def)

text \<open>
  On the tool path the result is read off the final response, the response to the last
  model request of the query, by \<open>extract_text\<close>: the fallback for a response without
  content, else the text of its first text block, else the second fallback.
\<close>

lemma tool_path_extracts_text:
  assumes "generate_response client self_model query h ts (Some m) (init w) = (Inr t, s')"
    and "model_calls (log s') = (p0, Inr r0) # ext" and "stop_reason r0 = ''tool_use''"
  shows "\<exists>before p fin. model_calls (log s') = before @ [(p, Inr fin)]
           \<and> t = extract_text fin"
  using assms(1)
proof (cases rule: generate_response_cases)
  case (model_raises e)
  then show ?thesis by simp
next
  case (direct r)
  with assms(2,3) show ?thesis by (auto dest!: messages_create_log)
next
  case (tool_path r s1 m')
  from tool_path(1) have m1: "model_calls (log s1) =
      [] @ [(initial_params self_model query h ts, Inr r)]"
    by (auto dest!: messages_create_log)
  from tool_path(4) show ?thesis
  proof (cases rule: handle_tool_execution_cases)
    case (raises e)
    then show ?thesis by simp
  next
    case (returns fin)
    from tool_loop_final_response [OF returns(1) m1] returns(2) show ?thesis by auto
  qed
qed

lemma run_four_rounds_result: "fst run_four_rounds = Inr fallback_no_text"
  by (simp add: run_four_rounds_def run_simps tool_use_response_def)

text \<open>
  The direct path reads \<^verbatim>\<open>response.content[0].text\<close> and nothing else: it raises on a
  response without content, and on one whose first block has no text.
\<close>

lemma direct_path_empty_raises:
  assumes "client w (initial_params self_model query h ts) = (Inr r, w')"
    and "content r = []" and "tm = None \<or> stop_reason r \<noteq> ''tool_use''"
  shows "fst (generate_response client self_model query h ts tm (init w)) = Inl IndexError"
  using assms
  by (auto simp: generate_response_def messages_create_def init_def Let_def
        first_block_text_def split: option.splits)

lemma direct_path_no_text_raises:
  assumes "client w (initial_params self_model query h ts) = (Inr r, w')"
    and "content r = b # rest" and "\<forall>x. b \<noteq> TextBlock x"
    and "tm = None \<or> stop_reason r \<noteq> ''tool_use''"
  shows "fst (generate_response client self_model query h ts tm (init w)) = Inl AttributeError"
  using assms
  by (cases b) (auto simp: generate_response_def messages_create_def init_def Let_def
        first_block_text_def split: option.splits)

text \<open>
  C3: a final response without content blocks should give the fallback string on every
  path. On the direct path it does not: \<^verbatim>\<open>response.content[0]\<close> raises \<^verbatim>\<open>IndexError\<close>.
  (On the tool path it does, by \<open>tool_path_extracts_text\<close> and \<open>extract_text_empty\<close>.)
\<close>

theorem empty_response_direct_path:
  "fst run_empty_direct = Inl IndexError
   \<and> map snd (model_calls (log (snd run_empty_direct))) = [Inr empty_response]
   \<and> content empty_response = []"
  by (simp add: run_empty_direct_def run_simps empty_response_def)

text \<open>
  C4: a final response with content should give the text of its first text block, or
  the second fallback if no block has text, on every path. On the direct path it does
  not when the first block is not a text block: \<^verbatim>\<open>response.content[0].text\<close> raises
  \<^verbatim>\<open>AttributeError\<close>, whether a later block has text or none has.
\<close>

theorem tool_use_first_direct_path:
  "fst run_tool_use_unmanaged = Inl AttributeError
   \<and> map snd (model_calls (log (snd run_tool_use_unmanaged))) = [Inr tool_then_text]
   \<and> first_text (content tool_then_text) = Some ''Searching the course.''
   \<and> fst run_search_unmanaged = Inl AttributeError
   \<and> map snd (model_calls (log (snd run_search_unmanaged))) = [Inr tool_use_response]
   \<and> first_text (content tool_use_response) = None"
  by (simp add: run_tool_use_unmanaged_def run_search_unmanaged_def run_simps
        tool_then_text_def tool_use_response_def)

end
